theory Spec2Isabelle
  imports Main
begin

section \<open>Strings of the host language\<close>

text \<open>
  A Python \<open>str\<close> is modelled as a \<open>string\<close> whose characters are the code points
  below 256. The character classes below are the ones Python uses on that range:
  \<open>str.isspace\<close> (also the class \<open>\s\<close> of a \<open>str\<close> pattern and the characters removed by
  \<open>str.strip()\<close>), the line boundaries of \<open>str.splitlines\<close>, and \<open>str.lower\<close>.
\<close>

definition is_space :: "char \<Rightarrow> bool" where
  "is_space c = (let n = (of_char c :: nat) in
     (9 \<le> n \<and> n \<le> 13) \<or> (28 \<le> n \<and> n \<le> 32) \<or> n = 133 \<or> n = 160)"

definition is_linebreak :: "char \<Rightarrow> bool" where
  "is_linebreak c = (let n = (of_char c :: nat) in
     (10 \<le> n \<and> n \<le> 13) \<or> (28 \<le> n \<and> n \<le> 30) \<or> n = 133)"

definition is_digit :: "char \<Rightarrow> bool" where
  "is_digit c = (let n = (of_char c :: nat) in 48 \<le> n \<and> n \<le> 57)"

definition digit_val :: "char \<Rightarrow> int" where
  "digit_val c = int (of_char c) - 48"

text \<open>The classes \<open>[A-Za-z_]\<close> and \<open>[A-Za-z_0-9]\<close> of the identifier pattern.\<close>

definition is_id_start :: "char \<Rightarrow> bool" where
  "is_id_start c = (let n = (of_char c :: nat) in
     (65 \<le> n \<and> n \<le> 90) \<or> (97 \<le> n \<and> n \<le> 122) \<or> n = 95)"

definition is_id_char :: "char \<Rightarrow> bool" where
  "is_id_char c = (is_id_start c \<or> is_digit c)"

definition lower_char :: "char \<Rightarrow> char" where
  "lower_char c = (let n = (of_char c :: nat) in
     if (65 \<le> n \<and> n \<le> 90) \<or> (192 \<le> n \<and> n \<le> 222 \<and> n \<noteq> 215)
     then char_of (n + 32) else c)"

definition lower :: "string \<Rightarrow> string" where
  "lower s = map lower_char s"

definition strip :: "string \<Rightarrow> string" where
  "strip s = rev (dropWhile is_space (rev (dropWhile is_space s)))"

definition startswith :: "string \<Rightarrow> string \<Rightarrow> bool" where
  "startswith s p = (take (length p) s = p)"

text \<open>
  \<open>str.splitlines()\<close>: a line ends at a line boundary (\<open>\r\n\<close> counts as one); the text
  after the last boundary is a line only when it is not empty.
\<close>

fun splitlines_from :: "string \<Rightarrow> string \<Rightarrow> string list" where
  "splitlines_from [] cur = (if cur = [] then [] else [cur])"
| "splitlines_from (c # cs) cur =
     (if c = CHR 0x0D then
        (case cs of
           [] \<Rightarrow> [cur]
         | d # ds \<Rightarrow> if d = CHR 0x0A then cur # splitlines_from ds []
                     else cur # splitlines_from cs [])
      else if is_linebreak c then cur # splitlines_from cs []
      else splitlines_from cs (cur @ [c]))"

definition splitlines :: "string \<Rightarrow> string list" where
  "splitlines s = splitlines_from s []"

text \<open>\<open>str(n)\<close> for an integer: its decimal digits, with a minus sign when negative.\<close>

fun digits_nat :: "nat \<Rightarrow> string" where
  "digits_nat n =
     (if n < 10 then [char_of (48 + n)]
      else digits_nat (n div 10) @ [char_of (48 + n mod 10)])"

declare digits_nat.simps [simp del]

definition str_int :: "int \<Rightarrow> string" where
  "str_int i = (if i < 0 then CHR ''-'' # digits_nat (nat (- i)) else digits_nat (nat i))"

text \<open>
  The interpreter's limit on the number of decimal digits in a conversion between \<open>int\<close>
  and \<open>str\<close> (the default of CPython 3.11 and later).
\<close>

definition max_str_digits :: nat where
  "max_str_digits = 4300"

text \<open>
  \<open>int(s)\<close> for a string, base ten: surrounding whitespace is removed, one sign is
  allowed, then at least one digit, with single underscores between digits, and at most
  \<open>max_str_digits\<close> digits. \<open>None\<close> stands for the \<open>ValueError\<close> Python raises on any
  other text. The whitespace \<open>int\<close> removes is narrower than that of \<open>str.strip\<close>: the
  characters U+001C to U+001F are not part of it.
\<close>

definition is_int_space :: "char \<Rightarrow> bool" where
  "is_int_space c = (let n = (of_char c :: nat) in
     (9 \<le> n \<and> n \<le> 13) \<or> n = 32 \<or> n = 133 \<or> n = 160)"

definition int_strip :: "string \<Rightarrow> string" where
  "int_strip s = rev (dropWhile is_int_space (rev (dropWhile is_int_space s)))"

fun parse_digits :: "string \<Rightarrow> int \<Rightarrow> int option" where
  "parse_digits [] acc = Some acc"
| "parse_digits (c # cs) acc =
     (if is_digit c then parse_digits cs (acc * 10 + digit_val c)
      else if c = CHR ''_'' then
        (case cs of
           [] \<Rightarrow> None
         | d # ds \<Rightarrow> if is_digit d then parse_digits ds (acc * 10 + digit_val d) else None)
      else None)"

definition parse_unsigned :: "string \<Rightarrow> int option" where
  "parse_unsigned s =
     (case s of
        [] \<Rightarrow> None
      | d # ds \<Rightarrow>
          if is_digit d then
            (if max_str_digits < length (filter is_digit s) then None
             else parse_digits ds (digit_val d))
          else None)"

definition py_int :: "string \<Rightarrow> int option" where
  "py_int s =
     (case int_strip s of
        [] \<Rightarrow> None
      | c # cs \<Rightarrow>
          if c = CHR ''-'' then map_option uminus (parse_unsigned cs)
          else if c = CHR ''+'' then parse_unsigned cs
          else parse_unsigned (c # cs))"

section \<open>Vocabulary\<close>

definition NUM_WORDS :: "(string \<times> int) list" where
  "NUM_WORDS =
     [(''zero'', 0), (''one'', 1), (''two'', 2), (''three'', 3), (''four'', 4),
      (''five'', 5), (''six'', 6), (''seven'', 7), (''eight'', 8), (''nine'', 9),
      (''ten'', 10), (''eleven'', 11), (''twelve'', 12), (''thirteen'', 13),
      (''fourteen'', 14), (''fifteen'', 15), (''sixteen'', 16), (''seventeen'', 17),
      (''eighteen'', 18), (''nineteen'', 19), (''twenty'', 20)]"

definition OP_WORDS :: "(string \<times> string) list" where
  "OP_WORDS =
     [(''plus'', ''+''), (''minus'', ''-''), (''times'', ''*''),
      (''divided_by'', ''/''), (''power'', ''**'')]"

definition PRECEDENCE :: "(string \<times> (int \<times> string)) list" where
  "PRECEDENCE =
     [(''**'', (4, ''right'')), (''*'', (3, ''left'')), (''/'', (3, ''left'')),
      (''+'', (2, ''left'')), (''-'', (2, ''left''))]"

section \<open>Tokens and errors\<close>

text \<open>The frozen dataclass \<open>Token(kind, value)\<close>; both fields are strings.\<close>

datatype Token = Token (kind: string) (val: string)

text \<open>
  One constructor for every \<open>raise\<close> of the program and for every exception an
  operation it calls can raise, with the data the message is built from.
\<close>

datatype arith_error = ZeroDivisionError | OverflowError

datatype error =
    UnexpectedCharacter nat char
  | MismatchedParentheses
  | UnexpectedTokenInExpression Token
  | NotEnoughValues
  | NotSingleValue
  | UnknownOperator string
  | UnexpectedTokenInRPN Token
  | UndefinedVariable string
  | PrecedenceKeyError string
  | IntValueError string
  | StrValueError
  | Arithmetic arith_error
  | InvalidVariableName nat string
  | UnknownStatement nat string

datatype exception_class =
  SyntaxError | NameError | KeyError | ValueError | ArithmeticError

fun exception_of :: "error \<Rightarrow> exception_class" where
  "exception_of (UnexpectedCharacter i c) = SyntaxError"
| "exception_of MismatchedParentheses = SyntaxError"
| "exception_of (UnexpectedTokenInExpression t) = SyntaxError"
| "exception_of NotEnoughValues = SyntaxError"
| "exception_of NotSingleValue = SyntaxError"
| "exception_of (UnknownOperator s) = SyntaxError"
| "exception_of (UnexpectedTokenInRPN t) = SyntaxError"
| "exception_of (UndefinedVariable n) = NameError"
| "exception_of (PrecedenceKeyError s) = KeyError"
| "exception_of (IntValueError s) = ValueError"
| "exception_of StrValueError = ValueError"
| "exception_of (Arithmetic a) = ArithmeticError"
| "exception_of (InvalidVariableName n s) = SyntaxError"
| "exception_of (UnknownStatement n s) = SyntaxError"

section \<open>Tokenizer\<close>

text \<open>
  \<open>TOKEN_RE.match(expr, i)\<close>: the alternatives start with disjoint characters, and the
  two repetitions are greedy with nothing after them, so the match is the longest run.
  The result is \<open>(m.lastgroup, m.group(kind), m.end())\<close>, or \<open>None\<close> for no match.
\<close>

definition TOKEN_RE_match :: "string \<Rightarrow> nat \<Rightarrow> (string \<times> string \<times> nat) option" where
  "TOKEN_RE_match expr i =
     (case drop i expr of
        [] \<Rightarrow> None
      | c # cs \<Rightarrow>
          if is_space c then
            (let text = c # takeWhile is_space cs in Some (''WS'', text, i + length text))
          else if c = CHR ''('' then Some (''LPAREN'', [c], i + 1)
          else if c = CHR '')'' then Some (''RPAREN'', [c], i + 1)
          else if c = CHR ''='' then Some (''EQ'', [c], i + 1)
          else if is_id_start c then
            (let text = c # takeWhile is_id_char cs in Some (''ID'', text, i + length text))
          else None)"

text \<open>The body of the loop after a match: the tokens list after this iteration.\<close>

definition emit :: "string \<Rightarrow> string \<Rightarrow> Token list \<Rightarrow> Token list" where
  "emit knd text tokens =
     (if knd = ''WS'' then tokens
      else if knd = ''LPAREN'' then tokens @ [Token ''LPAREN'' text]
      else if knd = ''RPAREN'' then tokens @ [Token ''RPAREN'' text]
      else if knd = ''EQ'' then tokens @ [Token ''EQ'' text]
      else if knd = ''ID'' then
        (let w = lower text in
           case map_of NUM_WORDS w of
             Some n \<Rightarrow> tokens @ [Token ''NUM'' (str_int n)]
           | None \<Rightarrow>
               (case map_of OP_WORDS w of
                  Some opr \<Rightarrow> tokens @ [Token ''OP'' opr]
                | None \<Rightarrow> tokens @ [Token ''ID'' text]))
      else tokens)"

text \<open>One iteration of the \<open>while\<close> loop, from index \<open>i\<close>: the error, or the next state.\<close>

definition tokenize_step :: "string \<Rightarrow> nat \<Rightarrow> Token list \<Rightarrow> error + (nat \<times> Token list)" where
  "tokenize_step expr i tokens =
     (case TOKEN_RE_match expr i of
        None \<Rightarrow> Inl (UnexpectedCharacter i (expr ! i))
      | Some (knd, text, e) \<Rightarrow> Inr (e, emit knd text tokens))"

lemma TOKEN_RE_match_end:
  assumes "TOKEN_RE_match expr i = Some (knd, text, e)"
  shows "i < e \<and> e \<le> length expr \<and> text \<noteq> [] \<and> e = i + length text"
proof -
  obtain c cs where d: "drop i expr = c # cs"
    using assms by (cases "drop i expr") (simp_all add: TOKEN_RE_match_def)
  have len: "length expr = i + Suc (length cs)"
    using arg_cong [OF d, of length] by simp
  have tw: "length (takeWhile P cs) \<le> length cs" for P :: "char \<Rightarrow> bool"
    by (rule length_takeWhile_le)
  from assms d len tw [of is_space] tw [of is_id_char] show ?thesis
    by (auto simp: TOKEN_RE_match_def Let_def split: if_splits)
qed

function tokenize_loop :: "string \<Rightarrow> nat \<Rightarrow> Token list \<Rightarrow> error + Token list" where
  "tokenize_loop expr i tokens =
     (if i < length expr then
        (case tokenize_step expr i tokens of
           Inl err \<Rightarrow> Inl err
         | Inr (i', tokens') \<Rightarrow> tokenize_loop expr i' tokens')
      else Inr tokens)"
  by pat_completeness auto
termination
proof (relation "measure (\<lambda>(expr, i, tokens). length expr - i)")
  show "wf (measure (\<lambda>(expr, i, tokens). length expr - i))" by simp
next
  fix expr :: string and i :: nat and tokens :: "Token list" and x2 :: "nat \<times> Token list"
    and i' :: nat and tokens' :: "Token list"
  assume lt: "i < length expr"
    and st: "tokenize_step expr i tokens = Inr x2"
    and x2: "(i', tokens') = x2"
  from st x2 obtain knd tx where "TOKEN_RE_match expr i = Some (knd, tx, i')"
    by (auto simp: tokenize_step_def split: option.splits)
  from TOKEN_RE_match_end [OF this] have "i < i'" and "i' \<le> length expr"
    by simp_all
  then show "((expr, i', tokens'), (expr, i, tokens)) \<in> measure (\<lambda>(expr, i, tokens). length expr - i)"
    by simp
qed

declare tokenize_loop.simps [simp del]

definition tokenize_expr :: "string \<Rightarrow> error + Token list" where
  "tokenize_expr expr = tokenize_loop expr 0 []"

text \<open>
  The same loop with a budget of iterations: \<open>None\<close> when the budget runs out before the
  loop ends. It serves to bound the number of iterations of \<open>tokenize_loop\<close>.
\<close>

fun tokenize_fuel :: "nat \<Rightarrow> string \<Rightarrow> nat \<Rightarrow> Token list \<Rightarrow> (error + Token list) option" where
  "tokenize_fuel 0 expr i tokens = (if i < length expr then None else Some (Inr tokens))"
| "tokenize_fuel (Suc n) expr i tokens =
     (if i < length expr then
        (case tokenize_step expr i tokens of
           Inl err \<Rightarrow> Some (Inl err)
         | Inr (i', tokens') \<Rightarrow> tokenize_fuel n expr i' tokens')
      else Some (Inr tokens))"

section \<open>Parser: shunting-yard to RPN\<close>

text \<open>
  The operator stack is a Python list whose top is its last element. It is kept here
  top first: \<open>stack.append(t)\<close> is \<open>t # stack\<close>, \<open>stack[-1]\<close> is the head and
  \<open>stack.pop()\<close> removes the head. The output list \<open>out\<close> is in the program's order.
  Every loop state is the pair \<open>(out, stack)\<close>.
\<close>

text \<open>The inner \<open>while\<close> loop of an operator token with \<open>(p1, assoc1)\<close>.\<close>

fun pop_operators ::
  "int \<Rightarrow> string \<Rightarrow> Token list \<Rightarrow> Token list \<Rightarrow> error + (Token list \<times> Token list)" where
  "pop_operators p1 assoc1 out [] = Inr (out, [])"
| "pop_operators p1 assoc1 out (s # stack) =
     (if kind s = ''OP'' then
        (case map_of PRECEDENCE (val s) of
           None \<Rightarrow> Inl (PrecedenceKeyError (val s))
         | Some (p2, assoc2) \<Rightarrow>
             if (assoc1 = ''left'' \<and> p1 \<le> p2) \<or> (assoc1 = ''right'' \<and> p1 < p2)
             then pop_operators p1 assoc1 (out @ [s]) stack
             else Inr (out, s # stack))
      else Inr (out, s # stack))"

text \<open>The \<open>while\<close> loop of a right parenthesis.\<close>

fun pop_to_lparen :: "Token list \<Rightarrow> Token list \<Rightarrow> Token list \<times> Token list" where
  "pop_to_lparen out [] = (out, [])"
| "pop_to_lparen out (s # stack) =
     (if kind s \<noteq> ''LPAREN'' then pop_to_lparen (out @ [s]) stack
      else (out, s # stack))"

text \<open>The final \<open>while stack\<close> loop.\<close>

fun drain :: "Token list \<Rightarrow> Token list \<Rightarrow> error + Token list" where
  "drain out [] = Inr out"
| "drain out (s # stack) =
     (if kind s = ''LPAREN'' \<or> kind s = ''RPAREN'' then Inl MismatchedParentheses
      else drain (out @ [s]) stack)"

text \<open>The \<open>for t in tokens\<close> loop.\<close>

fun rpn_loop ::
  "Token list \<Rightarrow> Token list \<Rightarrow> Token list \<Rightarrow> error + (Token list \<times> Token list)" where
  "rpn_loop [] out stack = Inr (out, stack)"
| "rpn_loop (t # ts) out stack =
     (if kind t = ''NUM'' \<or> kind t = ''ID'' then rpn_loop ts (out @ [t]) stack
      else if kind t = ''OP'' then
        (case map_of PRECEDENCE (val t) of
           None \<Rightarrow> Inl (PrecedenceKeyError (val t))
         | Some (p1, assoc1) \<Rightarrow>
             (case pop_operators p1 assoc1 out stack of
                Inl err \<Rightarrow> Inl err
              | Inr (out', stack') \<Rightarrow> rpn_loop ts out' (t # stack')))
      else if kind t = ''LPAREN'' then rpn_loop ts out (t # stack)
      else if kind t = ''RPAREN'' then
        (case pop_to_lparen out stack of
           (out', stack') \<Rightarrow>
             (case stack' of
                [] \<Rightarrow> Inl MismatchedParentheses
              | s # rest \<Rightarrow>
                  if kind s \<noteq> ''LPAREN'' then Inl MismatchedParentheses
                  else rpn_loop ts out' rest))
      else Inl (UnexpectedTokenInExpression t))"

definition to_rpn :: "Token list \<Rightarrow> error + Token list" where
  "to_rpn tokens =
     (case rpn_loop tokens [] [] of
        Inl err \<Rightarrow> Inl err
      | Inr (out, stack) \<Rightarrow> drain out stack)"

section \<open>Numbers\<close>

text \<open>
  A value is a Python \<open>int\<close> (unbounded) or a \<open>float\<close>. Integer arithmetic is modelled
  exactly. Floating-point arithmetic is the host's and is a parameter \<open>h\<close> of the model:
  \<open>int_truediv h x y\<close> is \<open>x / y\<close> for integers with \<open>y \<noteq> 0\<close>, \<open>int_negpow h x y\<close> is
  \<open>x ** y\<close> for integers with \<open>x \<noteq> 0\<close> and \<open>y < 0\<close>, and \<open>float_op h opr a b\<close> is the
  operator applied when at least one operand is a float. Each returns a value of the
  host's non-integer type \<open>'f\<close> or raises an arithmetic error.
\<close>

datatype 'f number = PyInt int | PyFloat 'f

record 'f host =
  int_truediv :: "int \<Rightarrow> int \<Rightarrow> arith_error + 'f"
  int_negpow :: "int \<Rightarrow> int \<Rightarrow> arith_error + 'f"
  float_op :: "string \<Rightarrow> 'f number \<Rightarrow> 'f number \<Rightarrow> arith_error + 'f"

definition from_host :: "arith_error + 'f \<Rightarrow> error + 'f number" where
  "from_host r = (case r of Inl a \<Rightarrow> Inl (Arithmetic a) | Inr x \<Rightarrow> Inr (PyFloat x))"

text \<open>The \<open>if\<close>/\<open>elif\<close> chain on \<open>t.value\<close>, applied to the operands \<open>a\<close> and \<open>b\<close>.\<close>

fun binop :: "'f host \<Rightarrow> string \<Rightarrow> 'f number \<Rightarrow> 'f number \<Rightarrow> error + 'f number" where
  "binop h opr (PyInt x) (PyInt y) =
     (if opr = ''+'' then Inr (PyInt (x + y))
      else if opr = ''-'' then Inr (PyInt (x - y))
      else if opr = ''*'' then Inr (PyInt (x * y))
      else if opr = ''/'' then
        (if y = 0 then Inl (Arithmetic ZeroDivisionError) else from_host (int_truediv h x y))
      else if opr = ''**'' then
        (if 0 \<le> y then Inr (PyInt (x ^ nat y))
         else if x = 0 then Inl (Arithmetic ZeroDivisionError)
         else from_host (int_negpow h x y))
      else Inl (UnknownOperator opr))"
| "binop h opr a b =
     (if opr = ''+'' \<or> opr = ''-'' \<or> opr = ''*'' \<or> opr = ''/'' \<or> opr = ''**''
      then from_host (float_op h opr a b)
      else Inl (UnknownOperator opr))"

text \<open>
  A host for closed examples: it keeps every float as the operation that produces it and
  never raises. It stands for the real host on inputs where that one does not raise.
\<close>

datatype sym = TrueDiv int int | NegPow int int | FloatOp string "sym number" "sym number"

definition symbolic_host :: "sym host" where
  "symbolic_host =
     \<lparr>int_truediv = (\<lambda>x y. Inr (TrueDiv x y)),
      int_negpow = (\<lambda>x y. Inr (NegPow x y)),
      float_op = (\<lambda>opr a b. Inr (FloatOp opr a b))\<rparr>"

section \<open>Evaluator\<close>

type_synonym 'f env = "string \<Rightarrow> 'f number option"

text \<open>
  The value stack \<open>st\<close> is kept top first, like the operator stack. The environment is
  a mutable dictionary shared with the caller, so every function that receives it
  returns it with its result: the pair is (what the call returns or raises, the
  environment after the call).
\<close>

definition pop_num :: "'f number list \<Rightarrow> error + ('f number \<times> 'f number list)" where
  "pop_num st = (case st of [] \<Rightarrow> Inl NotEnoughValues | v # st' \<Rightarrow> Inr (v, st'))"

fun eval_loop ::
  "'f host \<Rightarrow> Token list \<Rightarrow> 'f env \<Rightarrow> 'f number list \<Rightarrow> (error + 'f number list) \<times> 'f env" where
  "eval_loop h [] env st = (Inr st, env)"
| "eval_loop h (t # rpn) env st =
     (if kind t = ''NUM'' then
        (case py_int (val t) of
           None \<Rightarrow> (Inl (IntValueError (val t)), env)
         | Some n \<Rightarrow> eval_loop h rpn env (PyInt n # st))
      else if kind t = ''ID'' then
        (case env (val t) of
           None \<Rightarrow> (Inl (UndefinedVariable (val t)), env)
         | Some v \<Rightarrow> eval_loop h rpn env (v # st))
      else if kind t = ''OP'' then
        (case pop_num st of
           Inl err \<Rightarrow> (Inl err, env)
         | Inr (b, st1) \<Rightarrow>
             (case pop_num st1 of
                Inl err \<Rightarrow> (Inl err, env)
              | Inr (a, st2) \<Rightarrow>
                  (case binop h (val t) a b of
                     Inl err \<Rightarrow> (Inl err, env)
                   | Inr v \<Rightarrow> eval_loop h rpn env (v # st2))))
      else (Inl (UnexpectedTokenInRPN t), env))"

definition eval_rpn :: "'f host \<Rightarrow> Token list \<Rightarrow> 'f env \<Rightarrow> (error + 'f number) \<times> 'f env" where
  "eval_rpn h rpn env =
     (case eval_loop h rpn env [] of
        (Inl err, env') \<Rightarrow> (Inl err, env')
      | (Inr st, env') \<Rightarrow>
          if length st \<noteq> 1 then (Inl NotSingleValue, env') else (Inr (st ! 0), env'))"

definition eval_expr :: "'f host \<Rightarrow> string \<Rightarrow> 'f env \<Rightarrow> (error + 'f number) \<times> 'f env" where
  "eval_expr h expr env =
     (case tokenize_expr expr of
        Inl err \<Rightarrow> (Inl err, env)
      | Inr tokens \<Rightarrow>
          (case to_rpn tokens of
             Inl err \<Rightarrow> (Inl err, env)
           | Inr rpn \<Rightarrow> eval_rpn h rpn env))"

section \<open>Statement runner\<close>

text \<open>\<open>re.fullmatch\<close> of the identifier pattern.\<close>

definition is_identifier :: "string \<Rightarrow> bool" where
  "is_identifier name =
     (case name of [] \<Rightarrow> False | c # cs \<Rightarrow> is_id_start c \<and> list_all is_id_char cs)"

text \<open>
  \<open>print(val)\<close> converts the value with \<open>str\<close> and writes it. For an integer of more than
  \<open>max_str_digits\<close> decimal digits (the sign not counted) the conversion raises
  \<open>ValueError\<close> and nothing is written; otherwise the value is appended to the output.
\<close>

definition print_value :: "'f number \<Rightarrow> 'f number list \<Rightarrow> error + 'f number list" where
  "print_value v out =
     (case v of
        PyInt n \<Rightarrow>
          if max_str_digits < length (digits_nat (nat \<bar>n\<bar>)) then Inl StrValueError
          else Inr (out @ [v])
      | PyFloat x \<Rightarrow> Inr (out @ [v]))"

text \<open>
  The body of the loop over the lines, for one line. The output is kept when a statement
  raises. The result is (the error raised or the environment after the line, the output
  so far).
\<close>

definition run_line ::
  "'f host \<Rightarrow> nat \<Rightarrow> string \<Rightarrow> 'f env \<Rightarrow> 'f number list \<Rightarrow> (error + 'f env) \<times> 'f number list" where
  "run_line h lineno raw env out =
     (let line = strip raw in
      if line = [] \<or> startswith line ''#'' then (Inr env, out)
      else if startswith (lower line) ''print '' then
        (case eval_expr h (strip (drop 6 line)) env of
           (Inl err, env') \<Rightarrow> (Inl err, out)
         | (Inr v, env') \<Rightarrow>
             (case print_value v out of
                Inl err \<Rightarrow> (Inl err, out)
              | Inr out' \<Rightarrow> (Inr env', out')))
      else if CHR ''='' \<in> set line then
        (let left = takeWhile (\<lambda>c. c \<noteq> CHR ''='') line;
             right = tl (dropWhile (\<lambda>c. c \<noteq> CHR ''='') line);
             name = strip left
         in if \<not> is_identifier name then (Inl (InvalidVariableName lineno name), out)
            else
              (case eval_expr h (strip right) env of
                 (Inl err, env') \<Rightarrow> (Inl err, out)
               | (Inr v, env') \<Rightarrow> (Inr (env'(name \<mapsto> v)), out)))
      else (Inl (UnknownStatement lineno line), out))"

fun run_lines ::
  "'f host \<Rightarrow> nat \<Rightarrow> string list \<Rightarrow> 'f env \<Rightarrow> 'f number list \<Rightarrow> (error + 'f env) \<times> 'f number list" where
  "run_lines h lineno [] env out = (Inr env, out)"
| "run_lines h lineno (raw # rest) env out =
     (case run_line h lineno raw env out of
        (Inl err, out') \<Rightarrow> (Inl err, out')
      | (Inr env', out') \<Rightarrow> run_lines h (Suc lineno) rest env' out')"

definition run_dsl :: "'f host \<Rightarrow> string \<Rightarrow> (error + 'f env) \<times> 'f number list" where
  "run_dsl h program = run_lines h 1 (splitlines program) Map.empty []"

section \<open>Token kinds of the parser's two lists\<close>

text \<open>The kinds the evaluator accepts, and the kinds the parser pushes on its stack.\<close>

definition rpn_kind :: "Token \<Rightarrow> bool" where
  "rpn_kind t = (kind t = ''NUM'' \<or> kind t = ''ID'' \<or> kind t = ''OP'')"

definition stack_kind :: "Token \<Rightarrow> bool" where
  "stack_kind t = (kind t = ''OP'' \<or> kind t = ''LPAREN'')"

section \<open>Evaluation of the example expressions\<close>

lemma py_int_digits:
  "py_int ''0'' = Some 0" "py_int ''1'' = Some 1" "py_int ''2'' = Some 2"
  "py_int ''3'' = Some 3" "py_int ''4'' = Some 4"
  by code_simp+

lemma tokenize_power_example:
  "tokenize_expr ''two power three power two'' =
     Inr [Token ''NUM'' ''2'', Token ''OP'' ''**'', Token ''NUM'' ''3'',
          Token ''OP'' ''**'', Token ''NUM'' ''2'']"
  by code_simp


lemma tokenize_precedence_example:
  "tokenize_expr ''two plus three times four'' =
     Inr [Token ''NUM'' ''2'', Token ''OP'' ''+'', Token ''NUM'' ''3'',
          Token ''OP'' ''*'', Token ''NUM'' ''4'']"
  by code_simp

lemma to_rpn_precedence_example:
  "to_rpn [Token ''NUM'' ''2'', Token ''OP'' ''+'', Token ''NUM'' ''3'',
           Token ''OP'' ''*'', Token ''NUM'' ''4''] =
     Inr [Token ''NUM'' ''2'', Token ''NUM'' ''3'', Token ''NUM'' ''4'',
          Token ''OP'' ''*'', Token ''OP'' ''+'']"
  by code_simp

lemma precedence_table:
  "map_of PRECEDENCE ''**'' = Some (4, ''right'')"
  "map_of PRECEDENCE ''*'' = Some (3, ''left'')"
  "map_of PRECEDENCE ''/'' = Some (3, ''left'')"
  "map_of PRECEDENCE ''+'' = Some (2, ''left'')"
  "map_of PRECEDENCE ''-'' = Some (2, ''left'')"
  by (simp_all add: PRECEDENCE_def)


lemma tokenize_times_plus_example:
  "tokenize_expr ''two times three plus four'' =
     Inr [Token ''NUM'' ''2'', Token ''OP'' ''*'', Token ''NUM'' ''3'',
          Token ''OP'' ''+'', Token ''NUM'' ''4'']"
  by code_simp

lemma to_rpn_plus_times:
  assumes "kind a = ''NUM'' \<or> kind a = ''ID''" and "kind b = ''NUM'' \<or> kind b = ''ID''"
    and "kind c = ''NUM'' \<or> kind c = ''ID''"
  shows "to_rpn [a, Token ''OP'' ''+'', b, Token ''OP'' ''*'', c] =
           Inr [a, b, c, Token ''OP'' ''*'', Token ''OP'' ''+'']"
  using assms by (auto simp: to_rpn_def precedence_table)

lemma to_rpn_times_plus:
  assumes "kind a = ''NUM'' \<or> kind a = ''ID''" and "kind b = ''NUM'' \<or> kind b = ''ID''"
    and "kind c = ''NUM'' \<or> kind c = ''ID''"
  shows "to_rpn [a, Token ''OP'' ''*'', b, Token ''OP'' ''+'', c] =
           Inr [a, b, Token ''OP'' ''*'', c, Token ''OP'' ''+'']"
  using assms by (auto simp: to_rpn_def precedence_table)

text \<open>
  C9. Multiplication binds tighter than addition, because the precedence of \<open>*\<close> in the
  table is strictly higher than that of \<open>+\<close>. For all operands \<open>a\<close>, \<open>b\<close>, \<open>c\<close> (number or
  identifier tokens), \<open>a + b * c\<close> is parsed to \<open>a b c * +\<close> (the stacked \<open>+\<close> is not
  popped by \<open>*\<close>) and \<open>a * b + c\<close> to \<open>a b * c +\<close> (the stacked \<open>*\<close> is popped by \<open>+\<close>).
  So \<open>two plus three times four\<close> evaluates to 14 and \<open>two times three plus four\<close> to 10,
  in every environment and for every host arithmetic.
\<close>

theorem multiplication_binds_tighter:
  "eval_expr h ''two plus three times four'' env = (Inr (PyInt 14), env)
   \<and> (\<exists>p1 p2 a1 a2. map_of PRECEDENCE ''*'' = Some (p1, a1)
        \<and> map_of PRECEDENCE ''+'' = Some (p2, a2) \<and> p2 < p1)
   \<and> eval_expr h ''two times three plus four'' env = (Inr (PyInt 10), env)
   \<and> ((kind a = ''NUM'' \<or> kind a = ''ID'') \<and> (kind b = ''NUM'' \<or> kind b = ''ID'')
        \<and> (kind c = ''NUM'' \<or> kind c = ''ID'') \<longrightarrow>
        to_rpn [a, Token ''OP'' ''+'', b, Token ''OP'' ''*'', c] =
          Inr [a, b, c, Token ''OP'' ''*'', Token ''OP'' ''+'']
        \<and> to_rpn [a, Token ''OP'' ''*'', b, Token ''OP'' ''+'', c] =
          Inr [a, b, Token ''OP'' ''*'', c, Token ''OP'' ''+''])"
proof -
  have "eval_rpn h [Token ''NUM'' ''2'', Token ''NUM'' ''3'', Token ''NUM'' ''4'',
          Token ''OP'' ''*'', Token ''OP'' ''+''] env = (Inr (PyInt 14), env)"
    by (simp add: eval_rpn_def py_int_digits pop_num_def)
  then have e1: "eval_expr h ''two plus three times four'' env = (Inr (PyInt 14), env)"
    by (simp add: eval_expr_def tokenize_precedence_example to_rpn_precedence_example)
  have r2: "to_rpn [Token ''NUM'' ''2'', Token ''OP'' ''*'', Token ''NUM'' ''3'',
          Token ''OP'' ''+'', Token ''NUM'' ''4''] =
        Inr [Token ''NUM'' ''2'', Token ''NUM'' ''3'', Token ''OP'' ''*'', Token ''NUM'' ''4'',
          Token ''OP'' ''+'']"
    by (rule to_rpn_times_plus) simp_all
  have "eval_rpn h [Token ''NUM'' ''2'', Token ''NUM'' ''3'', Token ''OP'' ''*'',
          Token ''NUM'' ''4'', Token ''OP'' ''+''] env = (Inr (PyInt 10), env)"
    by (simp add: eval_rpn_def py_int_digits pop_num_def)
  then have e2: "eval_expr h ''two times three plus four'' env = (Inr (PyInt 10), env)"
    by (simp add: eval_expr_def tokenize_times_plus_example r2)
  have t: "\<exists>p1 p2 a1 a2. map_of PRECEDENCE ''*'' = Some (p1, a1)
        \<and> map_of PRECEDENCE ''+'' = Some (p2, a2) \<and> p2 < (p1 :: int)"
    by (simp add: precedence_table)
  from e1 e2 t to_rpn_plus_times [of a b c] to_rpn_times_plus [of a b c] show ?thesis
    by blast
qed

theorem multiplication_binds_tighter_witness:
  "to_rpn [Token ''ID'' ''x'', Token ''OP'' ''+'', Token ''NUM'' ''3'', Token ''OP'' ''*'',
           Token ''ID'' ''y''] =
     Inr [Token ''ID'' ''x'', Token ''NUM'' ''3'', Token ''ID'' ''y'', Token ''OP'' ''*'',
          Token ''OP'' ''+'']
   \<and> to_rpn [Token ''ID'' ''x'', Token ''OP'' ''*'', Token ''NUM'' ''3'', Token ''OP'' ''+'',
           Token ''ID'' ''y''] =
     Inr [Token ''ID'' ''x'', Token ''NUM'' ''3'', Token ''OP'' ''*'', Token ''ID'' ''y'',
          Token ''OP'' ''+'']
   \<and> eval_expr symbolic_host ''two plus three times four'' Map.empty =
       (Inr (PyInt 14), Map.empty)
   \<and> eval_expr symbolic_host ''two times three plus four'' Map.empty =
       (Inr (PyInt 10), Map.empty)"
proof -
  have k: "(kind (Token ''ID'' ''x'') = ''NUM'' \<or> kind (Token ''ID'' ''x'') = ''ID'')
      \<and> (kind (Token ''NUM'' ''3'') = ''NUM'' \<or> kind (Token ''NUM'' ''3'') = ''ID'')
      \<and> (kind (Token ''ID'' ''y'') = ''NUM'' \<or> kind (Token ''ID'' ''y'') = ''ID'')"
    by simp
  from multiplication_binds_tighter
    [of symbolic_host Map.empty "Token ''ID'' ''x''" "Token ''NUM'' ''3''" "Token ''ID'' ''y''"] k
  show ?thesis by blast
qed

lemma tokenize_unclosed_example:
  "tokenize_expr ''( one plus two'' =
     Inr [Token ''LPAREN'' ''('', Token ''NUM'' ''1'', Token ''OP'' ''+'', Token ''NUM'' ''2'']"
  by code_simp

lemma tokenize_unopened_example:
  "tokenize_expr ''one plus two )'' =
     Inr [Token ''NUM'' ''1'', Token ''OP'' ''+'', Token ''NUM'' ''2'', Token ''RPAREN'' '')'']"
  by code_simp

text \<open>
  C6. Unbalanced parentheses fail with \<open>SyntaxError\<close> in both directions. For
  \<open>( one plus two\<close> the token loop ends with the left parenthesis still on the stack and
  the final loop raises; for \<open>one plus two )\<close> the right parenthesis finds no left
  parenthesis on the stack and the token loop raises.
\<close>

theorem unbalanced_parentheses_fail:
  "tokenize_expr ''( one plus two'' =
     Inr [Token ''LPAREN'' ''('', Token ''NUM'' ''1'', Token ''OP'' ''+'', Token ''NUM'' ''2'']
   \<and> rpn_loop [Token ''LPAREN'' ''('', Token ''NUM'' ''1'', Token ''OP'' ''+'', Token ''NUM'' ''2'']
        [] [] =
      Inr ([Token ''NUM'' ''1'', Token ''NUM'' ''2''], [Token ''OP'' ''+'', Token ''LPAREN'' ''(''])
   \<and> to_rpn [Token ''LPAREN'' ''('', Token ''NUM'' ''1'', Token ''OP'' ''+'', Token ''NUM'' ''2''] =
      Inl MismatchedParentheses
   \<and> tokenize_expr ''one plus two )'' =
     Inr [Token ''NUM'' ''1'', Token ''OP'' ''+'', Token ''NUM'' ''2'', Token ''RPAREN'' '')'']
   \<and> rpn_loop [Token ''NUM'' ''1'', Token ''OP'' ''+'', Token ''NUM'' ''2'', Token ''RPAREN'' '')'']
        [] [] = Inl MismatchedParentheses
   \<and> to_rpn [Token ''NUM'' ''1'', Token ''OP'' ''+'', Token ''NUM'' ''2'', Token ''RPAREN'' '')''] =
      Inl MismatchedParentheses
   \<and> fst (eval_expr h ''( one plus two'' env) = Inl MismatchedParentheses
   \<and> fst (eval_expr h ''one plus two )'' env) = Inl MismatchedParentheses
   \<and> exception_of MismatchedParentheses = SyntaxError"
proof -
  have a: "rpn_loop [Token ''LPAREN'' ''('', Token ''NUM'' ''1'', Token ''OP'' ''+'',
        Token ''NUM'' ''2''] [] [] =
      Inr ([Token ''NUM'' ''1'', Token ''NUM'' ''2''], [Token ''OP'' ''+'', Token ''LPAREN'' ''(''])"
    by (simp add: precedence_table)
  have b: "rpn_loop [Token ''NUM'' ''1'', Token ''OP'' ''+'', Token ''NUM'' ''2'',
        Token ''RPAREN'' '')''] [] [] = Inl MismatchedParentheses"
    by (simp add: precedence_table)
  have a': "to_rpn [Token ''LPAREN'' ''('', Token ''NUM'' ''1'', Token ''OP'' ''+'',
        Token ''NUM'' ''2''] = Inl MismatchedParentheses"
    by (simp add: to_rpn_def precedence_table)
  have b': "to_rpn [Token ''NUM'' ''1'', Token ''OP'' ''+'', Token ''NUM'' ''2'',
        Token ''RPAREN'' '')''] = Inl MismatchedParentheses"
    by (simp add: to_rpn_def precedence_table)
  have c: "fst (eval_expr h ''( one plus two'' env) = Inl MismatchedParentheses"
    by (simp add: eval_expr_def tokenize_unclosed_example a')
  have d: "fst (eval_expr h ''one plus two )'' env) = Inl MismatchedParentheses"
    by (simp add: eval_expr_def tokenize_unopened_example b')
  show ?thesis
    using a b a' b' c d tokenize_unclosed_example tokenize_unopened_example by simp
qed

section \<open>The parser's output holds no parenthesis\<close>

lemma pop_operators_kinds:
  "pop_operators p1 assoc1 out stack = Inr (out', stack') \<Longrightarrow>
   list_all rpn_kind out \<Longrightarrow> list_all stack_kind stack \<Longrightarrow>
   list_all rpn_kind out' \<and> list_all stack_kind stack'"
proof (induction stack arbitrary: out)
  case Nil
  then show ?case by simp
next
  case (Cons s stack)
  show ?case
  proof (cases "kind s = ''OP''")
    case False
    with Cons.prems show ?thesis by auto
  next
    case True
    then have s: "rpn_kind s" by (simp add: rpn_kind_def)
    from Cons.prems(1) True obtain p2 assoc2 where
      pr: "map_of PRECEDENCE (val s) = Some (p2, assoc2)"
      by (cases "map_of PRECEDENCE (val s)") auto
    show ?thesis
    proof (cases "(assoc1 = ''left'' \<and> p1 \<le> p2) \<or> (assoc1 = ''right'' \<and> p1 < p2)")
      case pop: True
      with Cons.prems(1) True pr
      have "pop_operators p1 assoc1 (out @ [s]) stack = Inr (out', stack')" by simp
      from Cons.IH [OF this] Cons.prems(2,3) s show ?thesis by simp
    next
      case keep: False
      with Cons.prems True pr show ?thesis by auto
    qed
  qed
qed

lemma pop_to_lparen_kinds:
  "pop_to_lparen out stack = (out', stack') \<Longrightarrow>
   list_all rpn_kind out \<Longrightarrow> list_all stack_kind stack \<Longrightarrow>
   list_all rpn_kind out' \<and> list_all stack_kind stack'"
proof (induction stack arbitrary: out)
  case Nil
  then show ?case by simp
next
  case (Cons s stack)
  show ?case
  proof (cases "kind s = ''LPAREN''")
    case True
    with Cons.prems show ?thesis by auto
  next
    case False
    with Cons.prems(3) have s: "rpn_kind s" by (simp add: rpn_kind_def stack_kind_def)
    from Cons.prems(1) False
    have "pop_to_lparen (out @ [s]) stack = (out', stack')" by simp
    from Cons.IH [OF this] Cons.prems(2,3) s show ?thesis by simp
  qed
qed

lemma drain_kinds:
  "drain out stack = Inr rpn \<Longrightarrow>
   list_all rpn_kind out \<Longrightarrow> list_all stack_kind stack \<Longrightarrow> list_all rpn_kind rpn"
proof (induction stack arbitrary: out)
  case Nil
  then show ?case by simp
next
  case (Cons s stack)
  from Cons.prems(1) have np: "kind s \<noteq> ''LPAREN''" and d: "drain (out @ [s]) stack = Inr rpn"
    by (auto split: if_splits)
  from np Cons.prems(3) have "rpn_kind s" by (simp add: rpn_kind_def stack_kind_def)
  with Cons.IH [OF d] Cons.prems(2,3) show ?case by simp
qed

lemma rpn_loop_kinds:
  "rpn_loop ts out stack = Inr (out', stack') \<Longrightarrow>
   list_all rpn_kind out \<Longrightarrow> list_all stack_kind stack \<Longrightarrow>
   list_all rpn_kind out' \<and> list_all stack_kind stack'"
proof (induction ts arbitrary: out stack)
  case Nil
  then show ?case by simp
next
  case (Cons t ts)
  consider (operand) "kind t = ''NUM'' \<or> kind t = ''ID''"
    | (operator) "kind t = ''OP''"
    | (lparen) "kind t = ''LPAREN''"
    | (rparen) "kind t = ''RPAREN''"
    | (other) "kind t \<noteq> ''NUM''" "kind t \<noteq> ''ID''" "kind t \<noteq> ''OP''"
        "kind t \<noteq> ''LPAREN''" "kind t \<noteq> ''RPAREN''"
    by blast
  then show ?case
  proof cases
    case operand
    with Cons.prems(1) have "rpn_loop ts (out @ [t]) stack = Inr (out', stack')" by simp
    moreover from operand have "rpn_kind t" by (auto simp: rpn_kind_def)
    ultimately show ?thesis using Cons.IH Cons.prems(2,3) by simp
  next
    case operator
    from Cons.prems(1) operator obtain p1 assoc1 where
      pr: "map_of PRECEDENCE (val t) = Some (p1, assoc1)"
      by (cases "map_of PRECEDENCE (val t)") auto
    from Cons.prems(1) operator pr obtain out1 stack1 where
      po: "pop_operators p1 assoc1 out stack = Inr (out1, stack1)"
      and rl: "rpn_loop ts out1 (t # stack1) = Inr (out', stack')"
      by (cases "pop_operators p1 assoc1 out stack") auto
    from pop_operators_kinds [OF po Cons.prems(2,3)]
    have "list_all rpn_kind out1" and "list_all stack_kind stack1" by simp_all
    moreover from operator have "stack_kind t" by (simp add: stack_kind_def)
    ultimately show ?thesis using Cons.IH [OF rl] by simp
  next
    case lparen
    with Cons.prems(1) have "rpn_loop ts out (t # stack) = Inr (out', stack')" by simp
    moreover from lparen have "stack_kind t" by (simp add: stack_kind_def)
    ultimately show ?thesis using Cons.IH Cons.prems(2,3) by simp
  next
    case rparen
    obtain out1 stack1 where pl: "pop_to_lparen out stack = (out1, stack1)"
      by (cases "pop_to_lparen out stack") auto
    from Cons.prems(1) rparen pl obtain s rest where
      st: "stack1 = s # rest" and rl: "rpn_loop ts out1 rest = Inr (out', stack')"
      by (cases stack1) (auto split: if_splits)
    from pop_to_lparen_kinds [OF pl Cons.prems(2,3)] st
    have "list_all rpn_kind out1" and "list_all stack_kind rest" by simp_all
    with Cons.IH [OF rl] show ?thesis by simp
  next
    case other
    with Cons.prems(1) show ?thesis by simp
  qed
qed

lemma to_rpn_kinds: "to_rpn tokens = Inr rpn \<Longrightarrow> list_all rpn_kind rpn"
proof -
  assume a: "to_rpn tokens = Inr rpn"
  then obtain out stack where rl: "rpn_loop tokens [] [] = Inr (out, stack)"
    and d: "drain out stack = Inr rpn"
    by (cases "rpn_loop tokens [] []") (auto simp: to_rpn_def)
  from rpn_loop_kinds [OF rl] have "list_all rpn_kind out" and "list_all stack_kind stack"
    by simp_all
  with drain_kinds [OF d] show ?thesis by simp
qed

text \<open>
  C2. For every token sequence the parser accepts, every token of the postfix sequence
  returned by \<open>to_rpn\<close> has kind \<open>NUM\<close>, \<open>ID\<close> or \<open>OP\<close>; no parenthesis and no equals
  token is in it.
\<close>

theorem to_rpn_output_kinds:
  assumes "to_rpn tokens = Inr rpn"
  shows "\<forall>t \<in> set rpn.
           (kind t = ''NUM'' \<or> kind t = ''ID'' \<or> kind t = ''OP'')
           \<and> kind t \<noteq> ''LPAREN'' \<and> kind t \<noteq> ''RPAREN'' \<and> kind t \<noteq> ''EQ''"
proof
  fix t assume "t \<in> set rpn"
  with to_rpn_kinds [OF assms] have "rpn_kind t" by (simp add: list_all_iff)
  then show "(kind t = ''NUM'' \<or> kind t = ''ID'' \<or> kind t = ''OP'')
      \<and> kind t \<noteq> ''LPAREN'' \<and> kind t \<noteq> ''RPAREN'' \<and> kind t \<noteq> ''EQ''"
    by (auto simp: rpn_kind_def)
qed

lemma to_rpn_paren_example:
  "to_rpn [Token ''LPAREN'' ''('', Token ''NUM'' ''2'', Token ''OP'' ''+'', Token ''ID'' ''x'',
           Token ''RPAREN'' '')'', Token ''OP'' ''*'', Token ''NUM'' ''4''] =
     Inr [Token ''NUM'' ''2'', Token ''ID'' ''x'', Token ''OP'' ''+'', Token ''NUM'' ''4'',
          Token ''OP'' ''*'']"
  by code_simp

theorem to_rpn_output_kinds_witness:
  "to_rpn [Token ''LPAREN'' ''('', Token ''NUM'' ''2'', Token ''OP'' ''+'', Token ''ID'' ''x'',
           Token ''RPAREN'' '')'', Token ''OP'' ''*'', Token ''NUM'' ''4''] =
     Inr [Token ''NUM'' ''2'', Token ''ID'' ''x'', Token ''OP'' ''+'', Token ''NUM'' ''4'',
          Token ''OP'' ''*'']
   \<and> list_all (\<lambda>t. (kind t = ''NUM'' \<or> kind t = ''ID'' \<or> kind t = ''OP'')
           \<and> kind t \<noteq> ''LPAREN'' \<and> kind t \<noteq> ''RPAREN'' \<and> kind t \<noteq> ''EQ'')
        [Token ''NUM'' ''2'', Token ''ID'' ''x'', Token ''OP'' ''+'', Token ''NUM'' ''4'',
         Token ''OP'' ''*'']"
  using to_rpn_output_kinds [OF to_rpn_paren_example] to_rpn_paren_example
  unfolding list_all_iff by blast

section \<open>The evaluator and its environment\<close>

lemma eval_loop_env: "snd (eval_loop h rpn env st) = env"
proof (induction rpn arbitrary: st)
  case Nil
  show ?case by simp
next
  case (Cons t rpn)
  show ?case
    by (simp add: Cons.IH split: option.split sum.split prod.split)
qed

lemma eval_rpn_env: "snd (eval_rpn h rpn env) = env"
proof -
  obtain r env' where e: "eval_loop h rpn env [] = (r, env')"
    by (cases "eval_loop h rpn env []") auto
  with eval_loop_env [of h rpn env "[]"] have "env' = env" by simp
  with e show ?thesis by (cases r) (simp_all add: eval_rpn_def)
qed

lemma eval_expr_env: "snd (eval_expr h expr env) = env"
  by (simp add: eval_expr_def eval_rpn_env split: sum.split)

text \<open>
  C3. \<open>eval_rpn\<close> leaves the environment as it found it, for every postfix sequence,
  every environment and every host arithmetic, whether it returns a value or raises: the
  environment after the call is the environment before it, and so it is after the loop
  from any value stack.
\<close>

theorem eval_rpn_leaves_env_unchanged:
  "snd (eval_rpn h rpn env) = env
   \<and> snd (eval_loop h rpn env st) = env
   \<and> (\<exists>r. eval_rpn h rpn env = (r, env))"
proof -
  have "eval_rpn h rpn env = (fst (eval_rpn h rpn env), env)"
    using eval_rpn_env [of h rpn env] by (simp add: prod_eq_iff)
  then have "\<exists>r. eval_rpn h rpn env = (r, env)" ..
  then show ?thesis by (simp add: eval_rpn_env eval_loop_env)
qed

section \<open>Errors of the evaluator\<close>

lemma from_host_cases:
  "(\<exists>a. from_host r = Inl (Arithmetic a)) \<or> (\<exists>x. from_host r = Inr (PyFloat x))"
  by (cases r) (simp_all add: from_host_def)

lemma binop_cases:
  "(\<exists>v. binop h opr a b = Inr v) \<or> (\<exists>e. binop h opr a b = Inl (Arithmetic e))
   \<or> binop h opr a b = Inl (UnknownOperator opr)"
proof (cases a)
  case (PyInt x)
  show ?thesis
  proof (cases b)
    case (PyInt y)
    with \<open>a = PyInt x\<close> from_host_cases [of "int_truediv h x y"]
      from_host_cases [of "int_negpow h x y"]
    show ?thesis by auto
  next
    case (PyFloat g)
    with \<open>a = PyInt x\<close> from_host_cases [of "float_op h opr a b"]
    show ?thesis by auto
  qed
next
  case (PyFloat f)
  with from_host_cases [of "float_op h opr a b"]
  show ?thesis by auto
qed

lemma binop_not_stack_error:
  "binop h opr a b \<noteq> Inl NotEnoughValues" "binop h opr a b \<noteq> Inl NotSingleValue"
  using binop_cases [of h opr a b] by auto

lemma eval_loop_append:
  "fst (eval_loop h (pre @ post) env st) =
     (case fst (eval_loop h pre env st) of
        Inl err \<Rightarrow> Inl err
      | Inr st' \<Rightarrow> fst (eval_loop h post env st'))"
proof (induction pre arbitrary: st)
  case Nil
  show ?case by simp
next
  case (Cons t pre)
  show ?case
    by (simp add: Cons.IH pop_num_def split: option.split sum.split list.split)
qed

lemma eval_loop_not_single: "fst (eval_loop h rpn env st) \<noteq> Inl NotSingleValue"
proof (induction rpn arbitrary: st)
  case Nil
  show ?case by simp
next
  case (Cons t rpn)
  show ?case
    using binop_not_stack_error(2)
    by (auto simp: Cons.IH pop_num_def split: option.split sum.split list.split)
qed

lemma underflow_has_cause:
  assumes "fst (eval_loop h rpn env st) = Inl NotEnoughValues"
  shows "\<exists>pre t post st'. rpn = pre @ t # post \<and> fst (eval_loop h pre env st) = Inr st'
           \<and> kind t = ''OP'' \<and> length st' < 2"
  using assms
proof (induction rpn arbitrary: st)
  case Nil
  then show ?case by simp
next
  case (Cons t rpn)
  have extend: "\<exists>pre u post st'. t # rpn = pre @ u # post
        \<and> fst (eval_loop h pre env st) = Inr st' \<and> kind u = ''OP'' \<and> length st' < 2"
    if nxt: "fst (eval_loop h rpn env st1) = Inl NotEnoughValues"
      and one: "\<And>pre. fst (eval_loop h (t # pre) env st) = fst (eval_loop h pre env st1)"
    for st1
  proof -
    from Cons.IH [OF nxt] obtain pre u post st' where
      r: "rpn = pre @ u # post" and p: "fst (eval_loop h pre env st1) = Inr st'"
      and k: "kind u = ''OP''" and l: "length st' < 2"
      by blast
    from r have "t # rpn = (t # pre) @ u # post" by simp
    moreover from p one have "fst (eval_loop h (t # pre) env st) = Inr st'" by simp
    ultimately show ?thesis using k l by blast
  qed
  consider (num) "kind t = ''NUM''" | (ident) "kind t \<noteq> ''NUM''" "kind t = ''ID''"
    | (operator) "kind t \<noteq> ''NUM''" "kind t \<noteq> ''ID''" "kind t = ''OP''"
    | (other) "kind t \<noteq> ''NUM''" "kind t \<noteq> ''ID''" "kind t \<noteq> ''OP''"
    by blast
  then show ?case
  proof cases
    case num
    with Cons.prems obtain n where n: "py_int (val t) = Some n"
      by (cases "py_int (val t)") auto
    with num Cons.prems have "fst (eval_loop h rpn env (PyInt n # st)) = Inl NotEnoughValues"
      by simp
    moreover from num n
    have "\<And>pre. fst (eval_loop h (t # pre) env st) = fst (eval_loop h pre env (PyInt n # st))"
      by simp
    ultimately show ?thesis by (rule extend)
  next
    case ident
    with Cons.prems obtain v where v: "env (val t) = Some v"
      by (cases "env (val t)") auto
    with ident Cons.prems have "fst (eval_loop h rpn env (v # st)) = Inl NotEnoughValues"
      by simp
    moreover from ident v
    have "\<And>pre. fst (eval_loop h (t # pre) env st) = fst (eval_loop h pre env (v # st))"
      by simp
    ultimately show ?thesis by (rule extend)
  next
    case operator
    show ?thesis
    proof (cases "length st < 2")
      case True
      have "t # rpn = [] @ t # rpn" by simp
      moreover have "fst (eval_loop h [] env st) = Inr st" by simp
      ultimately show ?thesis using operator(3) True by blast
    next
      case False
      then obtain b a st2 where st: "st = b # a # st2"
        by (cases st; cases "tl st") auto
      from Cons.prems operator st obtain v where v: "binop h (val t) a b = Inr v"
        using binop_not_stack_error(1) [of h "val t" a b]
        by (cases "binop h (val t) a b") (auto simp: pop_num_def)
      with operator st Cons.prems
      have "fst (eval_loop h rpn env (v # st2)) = Inl NotEnoughValues"
        by (simp add: pop_num_def)
      moreover from operator st v
      have "\<And>pre. fst (eval_loop h (t # pre) env st) = fst (eval_loop h pre env (v # st2))"
        by (simp add: pop_num_def)
      ultimately show ?thesis by (rule extend)
    qed
  next
    case other
    with Cons.prems show ?thesis by simp
  qed
qed

lemma cause_gives_underflow:
  assumes "rpn = pre @ t # post" and "fst (eval_loop h pre env st) = Inr st'"
    and "kind t = ''OP''" and "length st' < 2"
  shows "fst (eval_loop h rpn env st) = Inl NotEnoughValues"
proof -
  from assms(4) have "st' = [] \<or> (\<exists>x. st' = [x])"
    by (cases st'; cases "tl st'") auto
  then have "fst (eval_loop h (t # post) env st') = Inl NotEnoughValues"
    using assms(3) by (auto simp: pop_num_def)
  with assms(1,2) show ?thesis by (simp add: eval_loop_append)
qed

lemma eval_rpn_fst:
  "fst (eval_rpn h rpn env) =
     (case fst (eval_loop h rpn env []) of
        Inl err \<Rightarrow> Inl err
      | Inr st \<Rightarrow> if length st \<noteq> 1 then Inl NotSingleValue else Inr (st ! 0))"
  by (cases "eval_loop h rpn env []") (simp add: eval_rpn_def split: sum.split)

text \<open>
  C7. \<open>eval_rpn\<close> raises "Not enough values in expression" exactly when some operator
  token is reached with fewer than two values on the stack (\<open>pop_num\<close> on an empty
  stack raises it); it raises "Expression did not reduce to a single value" exactly when
  all tokens are consumed and the number of values left is not one; and it returns \<open>v\<close>
  exactly when all tokens are consumed and \<open>v\<close> is the single value left. Both errors are
  \<open>SyntaxError\<close>s.
\<close>

theorem eval_rpn_malformed_expression:
  "(fst (eval_rpn (h :: 'f host) rpn env) = Inl NotEnoughValues \<longleftrightarrow>
      (\<exists>pre t post st. rpn = pre @ t # post \<and> fst (eval_loop h pre env []) = Inr st
         \<and> kind t = ''OP'' \<and> length st < 2))
   \<and> (fst (eval_rpn h rpn env) = Inl NotSingleValue \<longleftrightarrow>
      (\<exists>st. fst (eval_loop h rpn env []) = Inr st \<and> length st \<noteq> 1))
   \<and> (fst (eval_rpn h rpn env) = Inr v \<longleftrightarrow> fst (eval_loop h rpn env []) = Inr [v])
   \<and> pop_num ([] :: 'f number list) = Inl NotEnoughValues
   \<and> exception_of NotEnoughValues = SyntaxError
   \<and> exception_of NotSingleValue = SyntaxError"
proof -
  have under: "fst (eval_rpn h rpn env) = Inl NotEnoughValues \<longleftrightarrow>
      fst (eval_loop h rpn env []) = Inl NotEnoughValues"
    by (simp add: eval_rpn_fst split: sum.split)
  have a: "fst (eval_rpn h rpn env) = Inl NotEnoughValues \<longleftrightarrow>
      (\<exists>pre t post st. rpn = pre @ t # post \<and> fst (eval_loop h pre env []) = Inr st
         \<and> kind t = ''OP'' \<and> length st < 2)"
    unfolding under using underflow_has_cause [of h rpn env "[]"] cause_gives_underflow [of rpn _ _ _ h env "[]"]
    by blast
  have b: "fst (eval_rpn h rpn env) = Inl NotSingleValue \<longleftrightarrow>
      (\<exists>st. fst (eval_loop h rpn env []) = Inr st \<and> length st \<noteq> 1)"
    using eval_loop_not_single [of h rpn env "[]"]
    by (cases "fst (eval_loop h rpn env [])") (simp_all add: eval_rpn_fst)
  have single: "length st = 1 \<and> st ! 0 = v \<longleftrightarrow> st = [v]" for st :: "'f number list"
    by (cases st) auto
  have c: "fst (eval_rpn h rpn env) = Inr v \<longleftrightarrow> fst (eval_loop h rpn env []) = Inr [v]"
    using single by (cases "fst (eval_loop h rpn env [])") (auto simp: eval_rpn_fst)
  show ?thesis using a b c by (simp add: pop_num_def)
qed

theorem eval_rpn_malformed_expression_witness:
  "fst (eval_rpn symbolic_host [Token ''OP'' ''+''] Map.empty) = Inl NotEnoughValues
   \<and> fst (eval_rpn symbolic_host [Token ''NUM'' ''1'', Token ''NUM'' ''2''] Map.empty) =
       Inl NotSingleValue
   \<and> fst (eval_rpn symbolic_host [Token ''NUM'' ''1'', Token ''NUM'' ''2'', Token ''OP'' ''+'']
        Map.empty) = Inr (PyInt 3)"
proof -
  have "[Token ''OP'' ''+''] = [] @ Token ''OP'' ''+'' # []
      \<and> fst (eval_loop symbolic_host [] Map.empty []) = Inr []
      \<and> kind (Token ''OP'' ''+'') = ''OP'' \<and> length ([] :: sym number list) < 2"
    by simp
  then have a: "fst (eval_rpn symbolic_host [Token ''OP'' ''+''] Map.empty) = Inl NotEnoughValues"
    using eval_rpn_malformed_expression [of symbolic_host "[Token ''OP'' ''+'']" Map.empty]
    by blast
  have "fst (eval_loop symbolic_host [Token ''NUM'' ''1'', Token ''NUM'' ''2''] Map.empty []) =
      Inr [PyInt 2, PyInt 1] \<and> length [PyInt 2 :: sym number, PyInt 1] \<noteq> 1"
    by (simp add: py_int_digits)
  then have b: "fst (eval_rpn symbolic_host [Token ''NUM'' ''1'', Token ''NUM'' ''2''] Map.empty) =
      Inl NotSingleValue"
    using eval_rpn_malformed_expression
      [of symbolic_host "[Token ''NUM'' ''1'', Token ''NUM'' ''2'']" Map.empty]
    by blast
  have "fst (eval_loop symbolic_host
      [Token ''NUM'' ''1'', Token ''NUM'' ''2'', Token ''OP'' ''+''] Map.empty []) = Inr [PyInt 3]"
    by (simp add: py_int_digits pop_num_def)
  then have c: "fst (eval_rpn symbolic_host
      [Token ''NUM'' ''1'', Token ''NUM'' ''2'', Token ''OP'' ''+''] Map.empty) = Inr (PyInt 3)"
    using eval_rpn_malformed_expression
      [of symbolic_host "[Token ''NUM'' ''1'', Token ''NUM'' ''2'', Token ''OP'' ''+'']" Map.empty
        "PyInt 3"]
    by blast
  from a b c show ?thesis by simp
qed

section \<open>Undefined variables\<close>

lemma id_start_not_other:
  assumes "is_id_start c"
  shows "\<not> is_space c" and "c \<noteq> CHR ''(''" and "c \<noteq> CHR '')''" and "c \<noteq> CHR ''=''"
  using assms by (auto simp: is_id_start_def is_space_def Let_def)

lemma TOKEN_RE_match_identifier:
  assumes "is_identifier name"
  shows "TOKEN_RE_match name 0 = Some (''ID'', name, length name)"
proof -
  from assms obtain c cs where n: "name = c # cs" and c: "is_id_start c"
    and cs: "list_all is_id_char cs"
    by (cases name) (auto simp: is_identifier_def)
  from cs have tw: "takeWhile is_id_char cs = cs"
    by (simp add: takeWhile_eq_all_conv list_all_iff)
  from n c id_start_not_other [OF c] show ?thesis
    by (simp add: TOKEN_RE_match_def tw)
qed

lemma tokenize_identifier:
  assumes "is_identifier name"
    and "map_of NUM_WORDS (lower name) = None"
    and "map_of OP_WORDS (lower name) = None"
  shows "tokenize_expr name = Inr [Token ''ID'' name]"
proof -
  from assms(1) have ne: "0 < length name"
    by (cases name) (auto simp: is_identifier_def)
  have step: "tokenize_step name 0 [] = Inr (length name, [Token ''ID'' name])"
    using assms(2,3) by (simp add: tokenize_step_def TOKEN_RE_match_identifier [OF assms(1)] emit_def)
  have "tokenize_loop name 0 [] = tokenize_loop name (length name) [Token ''ID'' name]"
    using ne step tokenize_loop.simps [of name 0 "[]"] by simp
  also have "\<dots> = Inr [Token ''ID'' name]"
    using tokenize_loop.simps [of name "length name" "[Token ''ID'' name]"] by simp
  finally show ?thesis by (simp add: tokenize_expr_def)
qed

text \<open>
  C8. An expression that is a single identifier (a name matching the identifier pattern
  that is neither a number word nor an operator word) absent from the environment raises
  \<open>NameError\<close> "Undefined variable" carrying that name, and so does the evaluator on the
  one-token postfix sequence of any absent name.
\<close>

theorem undefined_variable_fails:
  assumes "is_identifier name"
    and "map_of NUM_WORDS (lower name) = None"
    and "map_of OP_WORDS (lower name) = None"
    and "env name = None"
  shows "eval_expr h name env = (Inl (UndefinedVariable name), env)
         \<and> eval_rpn h [Token ''ID'' name] env = (Inl (UndefinedVariable name), env)
         \<and> exception_of (UndefinedVariable name) = NameError"
proof -
  have r: "to_rpn [Token ''ID'' name] = Inr [Token ''ID'' name]"
    by (simp add: to_rpn_def)
  have e: "eval_rpn h [Token ''ID'' name] env = (Inl (UndefinedVariable name), env)"
    using assms(4) by (simp add: eval_rpn_def)
  from e show ?thesis
    by (simp add: eval_expr_def tokenize_identifier [OF assms(1-3)] r)
qed

theorem undefined_variable_fails_witness:
  "eval_expr symbolic_host ''y'' Map.empty = (Inl (UndefinedVariable ''y''), Map.empty)
   \<and> exception_of (UndefinedVariable ''y'') = NameError"
proof -
  have a: "is_identifier ''y''" by code_simp
  have b: "map_of NUM_WORDS (lower ''y'') = None" by code_simp
  have c: "map_of OP_WORDS (lower ''y'') = None" by code_simp
  have d: "(Map.empty :: sym env) ''y'' = None" by simp
  from undefined_variable_fails [OF a b c d, of symbolic_host] show ?thesis by simp
qed

section \<open>Integer operands\<close>

lemma from_host_not_int: "from_host r \<noteq> Inr (PyInt z)"
  by (cases r) (simp_all add: from_host_def)

lemma tokenize_negative_power_example:
  "tokenize_expr ''two power ( zero minus one )'' =
     Inr [Token ''NUM'' ''2'', Token ''OP'' ''**'', Token ''LPAREN'' ''('', Token ''NUM'' ''0'',
          Token ''OP'' ''-'', Token ''NUM'' ''1'', Token ''RPAREN'' '')'']"
  by code_simp

lemma to_rpn_negative_power_example:
  "to_rpn [Token ''NUM'' ''2'', Token ''OP'' ''**'', Token ''LPAREN'' ''('', Token ''NUM'' ''0'',
           Token ''OP'' ''-'', Token ''NUM'' ''1'', Token ''RPAREN'' '')''] =
     Inr [Token ''NUM'' ''2'', Token ''NUM'' ''0'', Token ''NUM'' ''1'', Token ''OP'' ''-'',
          Token ''OP'' ''**'']"
  by code_simp

text \<open>
  C5 as stated fails: with the integer operands 2 and -1 the power operator yields a
  float. \<open>two power ( zero minus one )\<close> evaluates to the float the host computes for
  \<open>2 ** -1\<close>.
\<close>

theorem power_of_integers_not_integer:
  "binop symbolic_host ''**'' (PyInt 2) (PyInt (- 1)) = Inr (PyFloat (NegPow 2 (- 1)))
   \<and> eval_expr symbolic_host ''two power ( zero minus one )'' Map.empty =
       (Inr (PyFloat (NegPow 2 (- 1))), Map.empty)"
proof -
  have a: "binop symbolic_host ''**'' (PyInt 2) (PyInt (- 1)) = Inr (PyFloat (NegPow 2 (- 1)))"
    by (simp add: symbolic_host_def from_host_def)
  have "eval_rpn symbolic_host
      [Token ''NUM'' ''2'', Token ''NUM'' ''0'', Token ''NUM'' ''1'', Token ''OP'' ''-'',
       Token ''OP'' ''**''] Map.empty = (Inr (PyFloat (NegPow 2 (- 1))), Map.empty)"
    by (simp add: eval_rpn_def py_int_digits pop_num_def symbolic_host_def from_host_def)
  then have "eval_expr symbolic_host ''two power ( zero minus one )'' Map.empty =
       (Inr (PyFloat (NegPow 2 (- 1))), Map.empty)"
    by (simp add: eval_expr_def tokenize_negative_power_example to_rpn_negative_power_example)
  with a show ?thesis by simp
qed

text \<open>
  C5, amended. When both operands are integers, \<open>+\<close>, \<open>-\<close> and \<open>*\<close> yield an integer,
  and \<open>**\<close> yields an integer when the exponent is not negative. With a negative
  exponent \<open>**\<close> never yields an integer (it yields a float, or raises), and \<open>/\<close> never
  yields an integer.
\<close>

theorem integer_operands_integer_results:
  "binop h ''+'' (PyInt x) (PyInt y) = Inr (PyInt (x + y))
   \<and> binop h ''-'' (PyInt x) (PyInt y) = Inr (PyInt (x - y))
   \<and> binop h ''*'' (PyInt x) (PyInt y) = Inr (PyInt (x * y))
   \<and> (0 \<le> y \<longrightarrow> binop h ''**'' (PyInt x) (PyInt y) = Inr (PyInt (x ^ nat y)))
   \<and> (y < 0 \<longrightarrow> (\<forall>z. binop h ''**'' (PyInt x) (PyInt y) \<noteq> Inr (PyInt z)))
   \<and> (\<forall>z. binop h ''/'' (PyInt x) (PyInt y) \<noteq> Inr (PyInt z))"
  by (simp add: from_host_not_int)

theorem integer_operands_integer_results_witness:
  "binop symbolic_host ''+'' (PyInt 2) (PyInt 3) = Inr (PyInt 5)
   \<and> binop symbolic_host ''-'' (PyInt 2) (PyInt 3) = Inr (PyInt (- 1))
   \<and> binop symbolic_host ''*'' (PyInt 2) (PyInt 3) = Inr (PyInt 6)
   \<and> binop symbolic_host ''**'' (PyInt 2) (PyInt 3) = Inr (PyInt 8)
   \<and> binop symbolic_host ''**'' (PyInt 2) (PyInt (- 3)) \<noteq> Inr (PyInt 0)
   \<and> binop symbolic_host ''/'' (PyInt 6) (PyInt 3) \<noteq> Inr (PyInt 2)"
proof -
  have p: "(0::int) \<le> 3" and n: "(- 3 :: int) < 0" by simp_all
  have e: "(2::int) ^ nat 3 = 8" by (simp add: eval_nat_numeral)
  from integer_operands_integer_results [of symbolic_host 2 3]
    integer_operands_integer_results [of symbolic_host 2 "- 3"]
    integer_operands_integer_results [of symbolic_host 6 3] p n e
  show ?thesis by simp
qed

section \<open>The print statement\<close>

lemma print_line_not_skipped:
  assumes "startswith (lower line) ''print ''"
  shows "line \<noteq> []" and "\<not> startswith line ''#''"
proof -
  from assms obtain c cs where l: "line = c # cs" and c: "lower_char c = CHR ''p''"
    by (cases line) (auto simp: startswith_def lower_def)
  from l show "line \<noteq> []" by simp
  from c have "c \<noteq> CHR ''#''" by (auto simp: lower_char_def)
  with l show "\<not> startswith line ''#''" by (simp add: startswith_def)
qed

lemma eval_expr_pair: "eval_expr h expr env = (fst (eval_expr h expr env), env)"
  using eval_expr_env [of h expr env] by (simp add: prod_eq_iff)

lemma tokenize_print_example:
  "tokenize_expr ''one plus one'' = Inr [Token ''NUM'' ''1'', Token ''OP'' ''+'', Token ''NUM'' ''1'']"
  by code_simp

lemma to_rpn_print_example:
  "to_rpn [Token ''NUM'' ''1'', Token ''OP'' ''+'', Token ''NUM'' ''1''] =
     Inr [Token ''NUM'' ''1'', Token ''NUM'' ''1'', Token ''OP'' ''+'']"
  by code_simp

text \<open>
  C4 as stated fails: \<open>print\<close> followed by a tab is whitespace after the keyword, yet
  the line is not run as a print statement. The runner tests for the prefix \<open>print\<close> and
  one space character, so the line \<open>print<TAB>one\<close> reaches the last branch and raises
  "Unknown statement"; nothing is printed.
\<close>

theorem print_then_tab_is_unknown_statement:
  "is_space (CHR 0x09)
   \<and> strip (''print'' @ [CHR 0x09] @ ''one'') = ''print'' @ [CHR 0x09] @ ''one''
   \<and> lower (take 5 (''print'' @ [CHR 0x09] @ ''one'')) = ''print''
   \<and> run_line symbolic_host 1 (''print'' @ [CHR 0x09] @ ''one'') Map.empty [] =
       (Inl (UnknownStatement 1 (''print'' @ [CHR 0x09] @ ''one'')), [])
   \<and> run_dsl symbolic_host (''print'' @ [CHR 0x09] @ ''one'') =
       (Inl (UnknownStatement 1 (''print'' @ [CHR 0x09] @ ''one'')), [])"
proof -
  have a: "is_space (CHR 0x09)" by code_simp
  have b: "strip (''print'' @ [CHR 0x09] @ ''one'') = ''print'' @ [CHR 0x09] @ ''one''"
    by code_simp
  have c: "lower (take 5 (''print'' @ [CHR 0x09] @ ''one'')) = ''print''" by code_simp
  have d: "lower (''print'' @ [CHR 0x09] @ ''one'') = ''print'' @ [CHR 0x09] @ ''one''"
    by code_simp
  have e: "run_line symbolic_host 1 (''print'' @ [CHR 0x09] @ ''one'') Map.empty [] =
       (Inl (UnknownStatement 1 (''print'' @ [CHR 0x09] @ ''one'')), [])"
    unfolding run_line_def b Let_def d by (simp add: startswith_def)
  have f: "splitlines (''print'' @ [CHR 0x09] @ ''one'') = [''print'' @ [CHR 0x09] @ ''one'']"
    by code_simp
  have g: "run_dsl symbolic_host (''print'' @ [CHR 0x09] @ ''one'') =
       (Inl (UnknownStatement 1 (''print'' @ [CHR 0x09] @ ''one'')), [])"
    unfolding run_dsl_def f using e by simp
  from a b c e g show ?thesis by blast
qed

lemma digits_nat_length: "0 < k \<Longrightarrow> k < length (digits_nat n) \<longleftrightarrow> 10 ^ k \<le> n"
proof (induction n arbitrary: k rule: digits_nat.induct)
  case (1 n)
  show ?case
  proof (cases "n < 10")
    case True
    have "(10::nat) ^ 1 \<le> 10 ^ k" using "1.prems" by (intro power_increasing) simp_all
    with True have "\<not> 10 ^ k \<le> n" by simp
    with True "1.prems" show ?thesis by (simp add: digits_nat.simps [of n])
  next
    case False
    show ?thesis
    proof (cases "k = 1")
      case True
      with False show ?thesis
        by (simp add: digits_nat.simps [of n] digits_nat.simps [of "n div 10"])
    next
      case k: False
      with "1.prems" obtain j where j: "k = Suc j" and "0 < j" by (cases k) auto
      from "1.IH" [OF False \<open>0 < j\<close>]
      have "j < length (digits_nat (n div 10)) \<longleftrightarrow> 10 ^ j \<le> n div 10" .
      moreover have "10 ^ j \<le> n div 10 \<longleftrightarrow> 10 ^ Suc j \<le> n"
        by (simp add: less_eq_div_iff_mult_less_eq mult.commute)
      ultimately show ?thesis using False j by (simp add: digits_nat.simps [of n])
    qed
  qed
qed

lemma print_value_cases:
  "print_value (PyInt n) out =
     (if 10 ^ max_str_digits \<le> \<bar>n\<bar> then Inl StrValueError else Inr (out @ [PyInt n]))"
  "print_value (PyFloat x) out = Inr (out @ [PyFloat x])"
proof -
  have "max_str_digits < length (digits_nat (nat \<bar>n\<bar>)) \<longleftrightarrow> 10 ^ max_str_digits \<le> nat \<bar>n\<bar>"
    by (rule digits_nat_length) (simp add: max_str_digits_def)
  also have "\<dots> \<longleftrightarrow> int (10 ^ max_str_digits) \<le> \<bar>n\<bar>" by linarith
  finally show "print_value (PyInt n) out =
     (if 10 ^ max_str_digits \<le> \<bar>n\<bar> then Inl StrValueError else Inr (out @ [PyInt n]))"
    by (simp add: print_value_def)
  show "print_value (PyFloat x) out = Inr (out @ [PyFloat x])"
    by (simp add: print_value_def)
qed

text \<open>
  C4, amended. For every line whose trimmed text starts with the case-insensitive
  keyword \<open>print\<close> followed by a space character, the runner evaluates the trimmed rest
  of the line (from its seventh character) as an expression against the current
  environment. If that raises, the run stops with that error and the output as it was.
  Otherwise the value is printed: it is appended to the output, the environment is
  unchanged, and the run continues with the next line; only for an integer of absolute
  value at least \<open>10 ^ max_str_digits\<close> does \<open>print\<close> raise \<open>ValueError\<close>, and the run stops
  with nothing emitted for the line.
\<close>

theorem print_statement_runs:
  assumes "startswith (lower (strip raw)) ''print ''"
  shows "run_line h lineno raw env out =
           (case fst (eval_expr h (strip (drop 6 (strip raw))) env) of
              Inl err \<Rightarrow> (Inl err, out)
            | Inr v \<Rightarrow>
                (case v of
                   PyInt n \<Rightarrow>
                     if 10 ^ max_str_digits \<le> \<bar>n\<bar> then (Inl StrValueError, out)
                     else (Inr env, out @ [v])
                 | PyFloat x \<Rightarrow> (Inr env, out @ [v])))
         \<and> run_lines h lineno (raw # rest) env out =
           (case fst (eval_expr h (strip (drop 6 (strip raw))) env) of
              Inl err \<Rightarrow> (Inl err, out)
            | Inr v \<Rightarrow>
                (case v of
                   PyInt n \<Rightarrow>
                     if 10 ^ max_str_digits \<le> \<bar>n\<bar> then (Inl StrValueError, out)
                     else run_lines h (Suc lineno) rest env (out @ [v])
                 | PyFloat x \<Rightarrow> run_lines h (Suc lineno) rest env (out @ [v])))
         \<and> exception_of StrValueError = ValueError"
proof -
  let ?r = "fst (eval_expr h (strip (drop 6 (strip raw))) env)"
  have pair: "eval_expr h (strip (drop 6 (strip raw))) env = (?r, env)"
    by (rule eval_expr_pair)
  have line0: "run_line h lineno raw env out =
      (case ?r of
         Inl err \<Rightarrow> (Inl err, out)
       | Inr v \<Rightarrow>
           (case print_value v out of
              Inl err \<Rightarrow> (Inl err, out)
            | Inr out' \<Rightarrow> (Inr env, out')))"
    using print_line_not_skipped [OF assms] assms
    unfolding run_line_def Let_def by (subst pair) (simp split: sum.split)
  have line: "run_line h lineno raw env out =
      (case ?r of
         Inl err \<Rightarrow> (Inl err, out)
       | Inr v \<Rightarrow>
           (case v of
              PyInt n \<Rightarrow>
                if 10 ^ max_str_digits \<le> \<bar>n\<bar> then (Inl StrValueError, out)
                else (Inr env, out @ [v])
            | PyFloat x \<Rightarrow> (Inr env, out @ [v])))"
    unfolding line0 by (simp add: print_value_cases split: sum.split number.split)
  show ?thesis
    unfolding run_lines.simps line by (simp split: sum.split number.split)
qed

theorem print_statement_runs_witness:
  "run_line symbolic_host 3 ''  PRINT   one plus one '' Map.empty [PyInt 7] =
     (Inr Map.empty, [PyInt 7, PyInt 2])"
proof -
  have p: "startswith (lower (strip ''  PRINT   one plus one '')) ''print ''" by code_simp
  have r: "strip (drop 6 (strip ''  PRINT   one plus one '')) = ''one plus one''" by code_simp
  have "eval_rpn symbolic_host [Token ''NUM'' ''1'', Token ''NUM'' ''1'', Token ''OP'' ''+'']
      Map.empty = (Inr (PyInt 2), Map.empty)"
    by (simp add: eval_rpn_def py_int_digits pop_num_def)
  then have e: "fst (eval_expr symbolic_host ''one plus one'' Map.empty) = Inr (PyInt 2)"
    by (simp add: eval_expr_def tokenize_print_example to_rpn_print_example)
  have "(10::int) ^ 1 \<le> 10 ^ max_str_digits"
    by (intro power_increasing) (simp_all add: max_str_digits_def)
  then have small: "\<not> (10::int) ^ max_str_digits \<le> \<bar>2\<bar>" by simp
  from print_statement_runs [OF p, of symbolic_host 3 Map.empty "[PyInt 7]"] small
  show ?thesis
    unfolding r e by simp
qed

section \<open>Termination of the tokenizer\<close>

lemma tokenize_loop_end: "length expr \<le> i \<Longrightarrow> tokenize_loop expr i tokens = Inr tokens"
  using tokenize_loop.simps [of expr i tokens] by simp

lemma tokenize_loop_unfold:
  "i < length expr \<Longrightarrow>
   tokenize_loop expr i tokens =
     (case tokenize_step expr i tokens of
        Inl err \<Rightarrow> Inl err
      | Inr (i', tokens') \<Rightarrow> tokenize_loop expr i' tokens')"
  using tokenize_loop.simps [of expr i tokens] by simp

lemma tokenize_step_progress:
  assumes "tokenize_step expr i tokens = Inr (i', tokens')"
  shows "i < i'" and "i' \<le> length expr"
proof -
  from assms obtain knd tx where "TOKEN_RE_match expr i = Some (knd, tx, i')"
    by (auto simp: tokenize_step_def split: option.splits)
  from TOKEN_RE_match_end [OF this] show "i < i'" and "i' \<le> length expr" by simp_all
qed

lemma tokenize_fuel_enough:
  "length expr - i \<le> n \<Longrightarrow> tokenize_fuel n expr i tokens = Some (tokenize_loop expr i tokens)"
proof (induction n arbitrary: i tokens)
  case 0
  then show ?case by (simp add: tokenize_loop_end)
next
  case (Suc n)
  show ?case
  proof (cases "i < length expr")
    case False
    then show ?thesis by (simp add: tokenize_loop_end)
  next
    case True
    show ?thesis
    proof (cases "tokenize_step expr i tokens")
      case (Inl err)
      with True show ?thesis by (simp add: tokenize_loop_unfold)
    next
      case (Inr p)
      obtain i' tokens' where p: "p = (i', tokens')" by (cases p)
      from tokenize_step_progress [of expr i tokens i' tokens'] Inr p Suc.prems
      have "length expr - i' \<le> n" by simp
      from Suc.IH [OF this] True Inr p show ?thesis by (simp add: tokenize_loop_unfold)
    qed
  qed
qed

text \<open>
  C10. Tokenization terminates on every input string. At every index inside the string,
  either the pattern does not match and the loop raises "Unexpected character" at once,
  or the match is a non-empty text, the next index is strictly larger and not beyond the
  end of the string, and the loop goes on from there. So the loop ends within
  \<open>len(expr)\<close> iterations: with that budget the budgeted loop returns what
  \<open>tokenize_expr\<close> returns.
\<close>

theorem tokenize_expr_terminates:
  "tokenize_fuel (length expr) expr 0 [] = Some (tokenize_expr expr)
   \<and> (\<forall>i tokens. i < length expr \<longrightarrow>
        (TOKEN_RE_match expr i = None
           \<and> tokenize_loop expr i tokens = Inl (UnexpectedCharacter i (expr ! i)))
        \<or> (\<exists>knd tx e. TOKEN_RE_match expr i = Some (knd, tx, e)
             \<and> tx \<noteq> [] \<and> e = i + length tx \<and> i < e \<and> e \<le> length expr
             \<and> tokenize_loop expr i tokens = tokenize_loop expr e (emit knd tx tokens)))"
proof -
  have fuel: "tokenize_fuel (length expr) expr 0 [] = Some (tokenize_expr expr)"
    by (simp add: tokenize_fuel_enough tokenize_expr_def)
  have step: "(TOKEN_RE_match expr i = None
           \<and> tokenize_loop expr i tokens = Inl (UnexpectedCharacter i (expr ! i)))
        \<or> (\<exists>knd tx e. TOKEN_RE_match expr i = Some (knd, tx, e)
             \<and> tx \<noteq> [] \<and> e = i + length tx \<and> i < e \<and> e \<le> length expr
             \<and> tokenize_loop expr i tokens = tokenize_loop expr e (emit knd tx tokens))"
    if lt: "i < length expr" for i tokens
  proof (cases "TOKEN_RE_match expr i")
    case None
    with lt show ?thesis by (simp add: tokenize_loop_unfold tokenize_step_def)
  next
    case (Some m)
    obtain knd tx e where m: "m = (knd, tx, e)" by (cases m)
    from Some m have match: "TOKEN_RE_match expr i = Some (knd, tx, e)" by simp
    from match lt have "tokenize_loop expr i tokens = tokenize_loop expr e (emit knd tx tokens)"
      by (simp add: tokenize_loop_unfold tokenize_step_def)
    with match TOKEN_RE_match_end [OF match] show ?thesis by simp
  qed
  from fuel step show ?thesis by blast
qed

lemma tokenize_bad_character_example:
  "tokenize_expr ''two $'' = Inl (UnexpectedCharacter 4 (CHR ''$''))"
  by code_simp

theorem tokenize_expr_terminates_witness:
  "tokenize_fuel 5 ''two $'' 0 [] = Some (Inl (UnexpectedCharacter 4 (CHR ''$'')))
   \<and> tokenize_fuel 25 ''two power three power two'' 0 [] =
       Some (Inr [Token ''NUM'' ''2'', Token ''OP'' ''**'', Token ''NUM'' ''3'',
                  Token ''OP'' ''**'', Token ''NUM'' ''2''])"
proof -
  have a: "length ''two $'' = 5" and b: "length ''two power three power two'' = 25"
    by simp_all
  from tokenize_expr_terminates [of "''two $''"] tokenize_expr_terminates [of "''two power three power two''"]
  show ?thesis
    unfolding a b tokenize_bad_character_example tokenize_power_example by blast
qed

end
